theory Spec2Isabelle
  imports Main
begin

section \<open>Processes: standard output and the way a run ends\<close>

text \<open>
  Both scripts are run-to-completion processes whose only effect is the text they
  write to standard output and the way they end. A run is the list of lines written,
  in order, and an outcome: the exit status of a normal end or of a call of
  \<open>exit\<close>, or the exception that ended the run uncaught.
\<close>

datatype py_error = ValueError | FileNotFoundError | NotADirectoryError

datatype outcome = Exit nat | Raised py_error

record run =
  stdout :: "string list"
  outcome :: outcome

text \<open>\<open>print(s)\<close> appends one line to standard output.\<close>

definition print :: "string \<Rightarrow> string list \<Rightarrow> string list" where
  "print s out = out @ [s]"

section \<open>Integers as text\<close>

text \<open>
  Python integers are unbounded: they are \<open>int\<close> here. \<open>f"{n}"\<close> renders an integer
  in decimal, with a minus sign when it is negative.
\<close>

definition dec_digit :: "nat \<Rightarrow> char" where
  "dec_digit d = ''0123456789'' ! d"

function dec_digits :: "nat \<Rightarrow> string" where
  "dec_digits n =
     (if n < 10 then [dec_digit n] else dec_digits (n div 10) @ [dec_digit (n mod 10)])"
  by pat_completeness auto
termination
  by (relation "measure id") auto

declare dec_digits.simps [simp del]

definition str_int :: "int \<Rightarrow> string" where
  "str_int i = (if i < 0 then ''-'' else '''') @ dec_digits (nat \<bar>i\<bar>)"

text \<open>
  \<open>f"{i:08X}"\<close>: upper-case hexadecimal digits of the magnitude, a minus sign for a
  negative number, and zeros between the sign and the digits up to a total width of
  eight characters. A number that needs more than eight characters is not cut.
\<close>

definition hex_digit :: "nat \<Rightarrow> char" where
  "hex_digit d = ''0123456789ABCDEF'' ! d"

function hex_digits :: "nat \<Rightarrow> string" where
  "hex_digits n =
     (if n < 16 then [hex_digit n] else hex_digits (n div 16) @ [hex_digit (n mod 16)])"
  by pat_completeness auto
termination
  by (relation "measure id") auto

declare hex_digits.simps [simp del]

definition format_08X :: "int \<Rightarrow> string" where
  "format_08X i =
     (let sign = (if i < 0 then ''-'' else '''');
          digits = hex_digits (nat \<bar>i\<bar>)
      in sign @ replicate (8 - length sign - length digits) CHR ''0'' @ digits)"

section \<open>The hexadecimal array generator\<close>

subsection \<open>Arguments\<close>

text \<open>
  The dataclass \<open>ProgramArguments\<close>. The fields hold the integers that
  \<open>ProgramArguments.get\<close> has parsed from the command line (\<open>start\<close> and \<open>final\<close> in
  base 16, \<open>step\<close> in base 10).
\<close>

record ProgramArguments =
  start :: int
  final :: int
  step :: int

subsection \<open>The built-in range\<close>

text \<open>
  \<open>range(start, stop, step)\<close> raises \<open>ValueError\<close> when \<open>step\<close> is zero; otherwise it
  is the object holding the three numbers.
\<close>

datatype py_range = Range int int int

definition range3 :: "int \<Rightarrow> int \<Rightarrow> int \<Rightarrow> py_error + py_range" where
  "range3 lo hi st = (if st = 0 then Inl ValueError else Inr (Range lo hi st))"

text \<open>
  Iterating a range yields \<open>start\<close>, \<open>start + step\<close>, ... for as long as the number is
  below \<open>stop\<close> (positive step) or above \<open>stop\<close> (negative step).
\<close>

function range_from :: "int \<Rightarrow> int \<Rightarrow> int \<Rightarrow> int list" where
  "range_from cur hi st =
     (if 0 < st \<and> cur < hi then cur # range_from (cur + st) hi st
      else if st < 0 \<and> hi < cur then cur # range_from (cur + st) hi st
      else [])"
  by pat_completeness auto
termination
  by (relation "measure (\<lambda>(cur, hi, st). if 0 < st then nat (hi - cur) else nat (cur - hi))")
     auto

declare range_from.simps [simp del]

fun iter :: "py_range \<Rightarrow> int list" where
  "iter (Range lo hi st) = range_from lo hi st"

text \<open>
  \<open>len\<close> of a range is computed from the three numbers, without iterating. It is
  modelled on unbounded integers, as the language defines it; the limit of
  \<open>sys.maxsize\<close> that one implementation puts on \<open>len\<close> is left out.
\<close>

fun len :: "py_range \<Rightarrow> nat" where
  "len (Range lo hi st) =
     (if 0 < st then (if lo < hi then nat ((hi - lo - 1) div st) + 1 else 0)
      else (if hi < lo then nat ((lo - hi - 1) div (- st)) + 1 else 0))"

subsection \<open>The main program\<close>

text \<open>
  \<^verbatim>\<open>
  array_range = range(
      arguments.start, arguments.final + arguments.step, arguments.step
  )
  for i in array_range:
      value = f"{i:08X}"
      left, right = value[0:4], value[4:8]
      value = f"{left}_{right}"
      print(f"0x{value},")
  print(f"{len(array_range)}")
  \<close>
  The body of the loop writes one line for the number \<open>i\<close>; a slice of a string stops
  at the end of the string, as \<open>take\<close> and \<open>drop\<close> do.
\<close>

definition format_line :: "int \<Rightarrow> string" where
  "format_line i =
     (let v = format_08X i;
          left = take 4 v;
          right = take 4 (drop 4 v);
          v = left @ ''_'' @ right
      in ''0x'' @ v @ '','')"

fun for_loop :: "int list \<Rightarrow> string list \<Rightarrow> string list" where
  "for_loop [] out = out"
| "for_loop (i # rest) out = for_loop rest (print (format_line i) out)"

definition generator_main :: "ProgramArguments \<Rightarrow> run" where
  "generator_main arguments =
     (case range3 (start arguments) (final arguments + step arguments) (step arguments) of
        Inl e \<Rightarrow> \<lparr>stdout = [], outcome = Raised e\<rparr>
      | Inr array_range \<Rightarrow>
          (let out = for_loop (iter array_range) [];
               out = print (str_int (int (len array_range))) out
           in \<lparr>stdout = out, outcome = Exit 0\<rparr>))"

text \<open>The numbers of the sequence and the lines written for them, by name.\<close>

definition array_range_values :: "ProgramArguments \<Rightarrow> int list" where
  "array_range_values arguments =
     (case range3 (start arguments) (final arguments + step arguments) (step arguments) of
        Inl e \<Rightarrow> []
      | Inr array_range \<Rightarrow> iter array_range)"

definition value_lines :: "ProgramArguments \<Rightarrow> string list" where
  "value_lines arguments = for_loop (array_range_values arguments) []"

subsection \<open>What a line of the generator shows\<close>

text \<open>
  The pattern \<open>0x[0-9A-F]{4}_[0-9A-F]{4},\<close> for a whole line: \<open>0x\<close>, four upper-case
  hexadecimal digits, an underscore, four more such digits, a comma.
\<close>

definition upper_hex :: "char \<Rightarrow> bool" where
  "upper_hex c = (c \<in> set ''0123456789ABCDEF'')"

definition hex_line_pattern :: "string \<Rightarrow> bool" where
  "hex_line_pattern s =
     (length s = 12 \<and> take 2 s = ''0x'' \<and> list_all upper_hex (take 4 (drop 2 s)) \<and>
      s ! 6 = CHR ''_'' \<and> list_all upper_hex (take 4 (drop 7 s)) \<and> s ! 11 = CHR '','')"

text \<open>
  The number that a string of upper-case hexadecimal digits denotes, most significant
  digit first (the reading \<open>int(s, 16)\<close> gives such a string), and the digits that a
  line shows: the four after \<open>0x\<close> and the four after the underscore.
\<close>

definition hex_digit_value :: "char \<Rightarrow> nat" where
  "hex_digit_value c = length (takeWhile (\<lambda>d. d \<noteq> c) ''0123456789ABCDEF'')"

definition hex_value :: "string \<Rightarrow> nat" where
  "hex_value s = foldl (\<lambda>acc c. 16 * acc + hex_digit_value c) 0 s"

definition line_digits :: "string \<Rightarrow> string" where
  "line_digits s = take 4 (drop 2 s) @ take 4 (drop 7 s)"

text \<open>The number that a string of decimal digits denotes: what the count line shows.\<close>

definition dec_digit_value :: "char \<Rightarrow> nat" where
  "dec_digit_value c = length (takeWhile (\<lambda>d. d \<noteq> c) ''0123456789'')"

definition dec_value :: "string \<Rightarrow> nat" where
  "dec_value s = foldl (\<lambda>acc c. 10 * acc + dec_digit_value c) 0 s"

section \<open>The examples lister\<close>

subsection \<open>Paths and the file system\<close>

text \<open>
  An absolute POSIX path is the list of its components below the root. The file
  system maps a path to what is there: nothing, something that is not a directory, or
  a directory with the names of its entries in the order in which the operating
  system lists them. Permissions and links are not modelled.
\<close>

type_synonym path = "string list"

datatype node = File | Directory "string list"

type_synonym filesystem = "path \<Rightarrow> node option"

text \<open>\<open>str(path)\<close>, as the f-strings of the messages take it.\<close>

definition path_str :: "path \<Rightarrow> string" where
  "path_str p = (if p = [] then ''/'' else concat (map (\<lambda>c. ''/'' @ c) p))"

text \<open>\<open>a / b\<close> for a relative path \<open>b\<close>.\<close>

definition joinpath :: "path \<Rightarrow> path \<Rightarrow> path" where
  "joinpath a b = a @ b"

definition path_exists :: "filesystem \<Rightarrow> path \<Rightarrow> bool" where
  "path_exists fs p = (fs p \<noteq> None)"

definition is_dir :: "filesystem \<Rightarrow> path \<Rightarrow> bool" where
  "is_dir fs p = (case fs p of Some (Directory names) \<Rightarrow> True | _ \<Rightarrow> False)"

text \<open>\<open>path.iterdir()\<close> yields \<open>path / name\<close> for every entry, in the listing's order.\<close>

definition iterdir :: "filesystem \<Rightarrow> path \<Rightarrow> py_error + path list" where
  "iterdir fs p =
     (case fs p of
        None \<Rightarrow> Inl FileNotFoundError
      | Some File \<Rightarrow> Inl NotADirectoryError
      | Some (Directory names) \<Rightarrow> Inr (map (\<lambda>n. joinpath p [n]) names))"

text \<open>
  \<open>path.name\<close> is the last component. \<open>path.stem\<close> is the name up to its last dot,
  when that dot is neither the first nor the last character of the name, and the whole
  name otherwise (pathlib up to Python 3.13). \<open>str.rfind\<close> gives the highest index of
  the character, or -1.
\<close>

definition path_name :: "path \<Rightarrow> string" where
  "path_name p = (if p = [] then [] else last p)"

definition rfind :: "string \<Rightarrow> char \<Rightarrow> int" where
  "rfind s c =
     (let found = filter (\<lambda>i. s ! i = c) [0 ..< length s]
      in if found = [] then - 1 else int (last found))"

definition name_stem :: "string \<Rightarrow> string" where
  "name_stem n =
     (let i = rfind n CHR ''.''
      in if 0 < i \<and> i < int (length n) - 1 then take (nat i) n else n)"

definition stem :: "path \<Rightarrow> string" where
  "stem p = name_stem (path_name p)"

subsection \<open>The main program\<close>

text \<open>
  \<^verbatim>\<open>
  path_examples = Path.cwd() / Path("examples/")
  if not path_examples.exists():
      print(f"Path to examples does not exist.")
      print(f" - {path_examples}")
      exit(1)
  if not path_examples.is_dir():
      print(f"Path to examples is not a directory.")
      print(f" - {path_examples}")
      exit(1)
  for (index, path) in enumerate(path_examples.iterdir()):
      print(f"{index + 1} {path.stem}")
  \<close>
  The working directory and the file system are the parameters of the run.
\<close>

fun lister_loop :: "(nat \<times> path) list \<Rightarrow> string list \<Rightarrow> string list" where
  "lister_loop [] out = out"
| "lister_loop ((index, p) # rest) out =
     lister_loop rest (print (str_int (int index + 1) @ '' '' @ stem p) out)"

definition lister_main :: "path \<Rightarrow> filesystem \<Rightarrow> run" where
  "lister_main cwd fs =
     (let path_examples = joinpath cwd [''examples'']
      in if \<not> path_exists fs path_examples then
           (let out = print ''Path to examples does not exist.'' [];
                out = print ('' - '' @ path_str path_examples) out
            in \<lparr>stdout = out, outcome = Exit 1\<rparr>)
         else if \<not> is_dir fs path_examples then
           (let out = print ''Path to examples is not a directory.'' [];
                out = print ('' - '' @ path_str path_examples) out
            in \<lparr>stdout = out, outcome = Exit 1\<rparr>)
         else
           (case iterdir fs path_examples of
              Inl e \<Rightarrow> \<lparr>stdout = [], outcome = Raised e\<rparr>
            | Inr paths \<Rightarrow>
                \<lparr>stdout = lister_loop (enumerate 0 paths) [], outcome = Exit 0\<rparr>))"

text \<open>
  A working directory \<open>/work\<close> whose \<open>examples\<close> directory holds one entry, the
  directory \<open>demo.v2\<close>.
\<close>

definition dotted_directory_fs :: filesystem where
  "dotted_directory_fs =
     [[''work''] \<mapsto> Directory [''examples''],
      [''work'', ''examples''] \<mapsto> Directory [''demo.v2''],
      [''work'', ''examples'', ''demo.v2''] \<mapsto> Directory []]"

section \<open>Properties of the generator\<close>

lemma for_loop_map: "for_loop xs out = out @ map format_line xs"
  by (induction xs arbitrary: out) (simp_all add: print_def)

subsection \<open>The range: its length and its numbers\<close>

lemma div_sub_self: "(s::int) \<noteq> 0 \<Longrightarrow> (x - s) div s = x div s - 1"
  using div_add_self2 [of s "x - s"] by simp

lemma len_up_step:
  assumes "0 < (st::int)" "cur < hi"
  shows "len (Range cur hi st) = Suc (len (Range (cur + st) hi st))"
proof (cases "cur + st < hi")
  case True
  have "(hi - (cur + st) - 1) div st = (hi - cur - 1) div st - 1"
    using div_sub_self [of st "hi - cur - 1"] assms by (simp add: algebra_simps)
  moreover have "0 \<le> (hi - (cur + st) - 1) div st"
    using True assms by (simp add: pos_imp_zdiv_nonneg_iff)
  ultimately show ?thesis using True assms by simp
next
  case False
  then have "(hi - cur - 1) div st = 0" using assms by simp
  then show ?thesis using False assms by simp
qed

lemma len_down_step:
  assumes "(st::int) < 0" "hi < cur"
  shows "len (Range cur hi st) = Suc (len (Range (cur + st) hi st))"
proof (cases "hi < cur + st")
  case True
  have "(cur + st - hi - 1) div (- st) = (cur - hi - 1) div (- st) - 1"
    using div_sub_self [of "- st" "cur - hi - 1"] assms by (simp add: algebra_simps)
  moreover have "0 \<le> (cur + st - hi - 1) div (- st)"
    using True assms by (simp add: pos_imp_zdiv_nonneg_iff)
  ultimately show ?thesis using True assms by simp
next
  case False
  then have "(cur - hi - 1) div (- st) = 0" using assms by simp
  then show ?thesis using False assms by simp
qed

lemma length_range_from:
  "length (range_from lo hi st) = (if st = 0 then 0 else len (Range lo hi st))"
proof (induction lo hi st rule: range_from.induct)
  case (1 cur hi st)
  consider (up) "0 < st" "cur < hi" | (down) "st < 0" "hi < cur"
    | (stop) "\<not> (0 < st \<and> cur < hi)" "\<not> (st < 0 \<and> hi < cur)"
    by linarith
  then show ?case
  proof cases
    case up
    then have "range_from cur hi st = cur # range_from (cur + st) hi st"
      by (subst range_from.simps) simp
    moreover have "length (range_from (cur + st) hi st) = len (Range (cur + st) hi st)"
      using "1.IH"(1) up by simp
    ultimately show ?thesis
      using up len_up_step [OF up] by (simp del: len.simps)
  next
    case down
    then have "range_from cur hi st = cur # range_from (cur + st) hi st"
      by (subst range_from.simps) simp
    moreover have "length (range_from (cur + st) hi st) = len (Range (cur + st) hi st)"
      using "1.IH"(2) down by simp
    ultimately show ?thesis
      using down len_down_step [OF down] by (simp del: len.simps)
  next
    case stop
    then have "range_from cur hi st = []"
      by (subst range_from.simps) simp
    then show ?thesis using stop by auto
  qed
qed

lemma nth_range_from:
  "k < length (range_from lo hi st) \<Longrightarrow> range_from lo hi st ! k = lo + int k * st"
proof (induction lo hi st arbitrary: k rule: range_from.induct)
  case (1 cur hi st)
  show ?case
  proof (cases "(0 < st \<and> cur < hi) \<or> (st < 0 \<and> hi < cur)")
    case True
    then have eq: "range_from cur hi st = cur # range_from (cur + st) hi st"
      by (subst range_from.simps) auto
    show ?thesis
    proof (cases k)
      case 0
      then show ?thesis using eq by simp
    next
      case (Suc j)
      then have "j < length (range_from (cur + st) hi st)" using "1.prems" eq by simp
      then have "range_from (cur + st) hi st ! j = cur + st + int j * st"
        using "1.IH" True by auto
      then show ?thesis using eq Suc by (simp add: algebra_simps)
    qed
  next
    case False
    then have "range_from cur hi st = []" by (subst range_from.simps) auto
    then show ?thesis using "1.prems" by simp
  qed
qed

subsection \<open>The run of the generator\<close>

lemma array_range_values_eq:
  "step a \<noteq> 0 \<Longrightarrow> array_range_values a = range_from (start a) (final a + step a) (step a)"
  by (simp add: array_range_values_def range3_def)

lemma value_lines_map: "value_lines a = map format_line (array_range_values a)"
  by (simp add: value_lines_def for_loop_map)

lemma length_value_lines:
  "step a \<noteq> 0 \<Longrightarrow> length (value_lines a) = len (Range (start a) (final a + step a) (step a))"
  by (simp add: value_lines_map array_range_values_eq length_range_from del: len.simps)

lemma generator_main_run:
  "step a \<noteq> 0 \<Longrightarrow>
     generator_main a =
       \<lparr>stdout = value_lines a @ [str_int (int (length (value_lines a)))], outcome = Exit 0\<rparr>"
  by (simp add: length_value_lines del: len.simps)
     (simp add: generator_main_def range3_def value_lines_def array_range_values_def print_def
        del: len.simps)

lemma value_lines_output: "butlast (stdout (generator_main a)) = value_lines a"
proof (cases "step a = 0")
  case True
  then show ?thesis
    by (simp add: generator_main_def range3_def value_lines_def array_range_values_def)
next
  case False
  then show ?thesis by (simp add: generator_main_run)
qed

lemma mult_block_div:
  assumes "0 < (s::int)"
  shows "((int k + 1) * s - 1) div s = int k"
proof -
  have "(int k + 1) * s - 1 = (s - 1) + int k * s" by (simp add: algebra_simps)
  then have "((int k + 1) * s - 1) div s = int k + (s - 1) div s"
    using assms by (simp only: div_mult_self1)
  then show ?thesis using assms by simp
qed

lemma count_up:
  assumes "0 < (s::int)"
  shows "(d + s - 1) div s = d div s + (if s dvd d then 0 else 1)"
proof -
  have split: "d + s - 1 = (d mod s + s - 1) + (d div s) * s"
    by (simp add: algebra_simps)
  have "(d + s - 1) div s = d div s + (d mod s + s - 1) div s"
    using assms by (subst split, subst div_mult_self1) simp_all
  moreover have "(d mod s + s - 1) div s = (if s dvd d then 0 else 1)"
  proof (cases "s dvd d")
    case True
    then have "d mod s = 0" by simp
    then show ?thesis using True assms by simp
  next
    case False
    then have "d mod s \<noteq> 0" by (simp add: dvd_eq_mod_eq_0)
    moreover have "0 \<le> d mod s" "d mod s < s" using assms by simp_all
    ultimately have "0 < d mod s" "d mod s < s" by simp_all
    then have "(d mod s + s - 1) div s = (d mod s - 1) div s + 1"
      using div_add_self2 [of s "d mod s - 1"] assms by (simp add: algebra_simps)
    moreover have "(d mod s - 1) div s = 0"
      using \<open>0 < d mod s\<close> \<open>d mod s < s\<close> by simp
    ultimately show ?thesis using False by simp
  qed
  ultimately show ?thesis by simp
qed

lemma length_value_lines_up:
  assumes "start a \<le> final a" "0 < step a"
  shows "int (length (value_lines a)) =
           (final a - start a) div step a + (if step a dvd (final a - start a) then 1 else 2)"
proof -
  have "0 \<le> (final a - start a) div step a"
    using assms by (simp add: pos_imp_zdiv_nonneg_iff)
  then have "0 \<le> (final a - start a + step a - 1) div step a"
    using count_up [OF assms(2), of "final a - start a"] by simp
  then have "int (length (value_lines a)) = (final a - start a + step a - 1) div step a + 1"
    using assms by (simp add: length_value_lines algebra_simps)
  then show ?thesis
    using count_up [OF assms(2), of "final a - start a"] by simp
qed

lemma range_from_last:
  assumes "st \<noteq> 0" "hi - st - lo = int k * st"
  shows "length (range_from lo hi st) = Suc k"
    and "last (range_from lo hi st) = hi - st"
proof -
  have len: "len (Range lo hi st) = Suc k"
  proof (cases "0 < st")
    case True
    have "hi - lo - 1 = (int k + 1) * st - 1" using assms(2) by (simp add: algebra_simps)
    then have "(hi - lo - 1) div st = int k" using mult_block_div [OF True, of k] by simp
    moreover have "lo < hi"
    proof -
      have "0 \<le> int k * st" using True by simp
      then show ?thesis using assms(2) True by linarith
    qed
    ultimately show ?thesis using True by simp
  next
    case False
    then have neg: "0 < - st" using assms(1) by simp
    have "lo - hi - 1 = (int k + 1) * (- st) - 1" using assms(2) by (simp add: algebra_simps)
    then have "(lo - hi - 1) div (- st) = int k" using mult_block_div [OF neg, of k] by simp
    moreover have "hi < lo"
    proof -
      have "int k * st \<le> 0" using neg by (simp add: mult_nonneg_nonpos)
      then show ?thesis using assms(2) neg by linarith
    qed
    ultimately show ?thesis using False neg by simp
  qed
  show l: "length (range_from lo hi st) = Suc k"
    using len assms(1) by (simp add: length_range_from del: len.simps)
  then have "range_from lo hi st \<noteq> []" by auto
  then have "last (range_from lo hi st) = range_from lo hi st ! k"
    using l by (simp add: last_conv_nth)
  also have "\<dots> = lo + int k * st" using l by (simp add: nth_range_from)
  also have "\<dots> = hi - st" using assms(2) by simp
  finally show "last (range_from lo hi st) = hi - st" .
qed

subsection \<open>Decimal and hexadecimal text\<close>

lemma dec_digit_value_dec_digit: "d < 10 \<Longrightarrow> dec_digit_value (dec_digit d) = d"
proof -
  assume "d < 10"
  then have "d \<in> set [0 ..< 10]" by simp
  then show ?thesis
    by (simp add: upt_conv_Cons) (auto simp: dec_digit_value_def dec_digit_def)
qed

lemma dec_value_dec_digits: "dec_value (dec_digits n) = n"
proof (induction n rule: dec_digits.induct)
  case (1 n)
  show ?case
  proof (cases "n < 10")
    case True
    then show ?thesis
      by (subst dec_digits.simps) (simp add: dec_value_def dec_digit_value_dec_digit)
  next
    case False
    then have "dec_digits n = dec_digits (n div 10) @ [dec_digit (n mod 10)]"
      by (subst dec_digits.simps) simp
    then show ?thesis
      using "1.IH" False by (simp add: dec_value_def dec_digit_value_dec_digit)
  qed
qed

lemma dec_value_str_int: "dec_value (str_int (int n)) = n"
  by (simp add: str_int_def dec_value_dec_digits)

lemma upper_hex_hex_digit: "d < 16 \<Longrightarrow> upper_hex (hex_digit d)"
  unfolding upper_hex_def hex_digit_def by (rule nth_mem) simp

lemma hex_digits_small: "n < 16 \<Longrightarrow> hex_digits n = [hex_digit n]"
  by (subst hex_digits.simps) simp

lemma hex_digits_large:
  "16 \<le> n \<Longrightarrow> hex_digits n = hex_digits (n div 16) @ [hex_digit (n mod 16)]"
  by (subst hex_digits.simps) simp

lemma upper_hex_hex_digits: "list_all upper_hex (hex_digits n)"
proof (induction n rule: hex_digits.induct)
  case (1 n)
  show ?case
  proof (cases "n < 16")
    case True
    then show ?thesis by (simp add: hex_digits_small upper_hex_hex_digit)
  next
    case False
    then show ?thesis using "1.IH" by (simp add: hex_digits_large upper_hex_hex_digit)
  qed
qed

lemma length_hex_digits_le: "n < 16 ^ Suc k \<Longrightarrow> length (hex_digits n) \<le> Suc k"
proof (induction k arbitrary: n)
  case 0
  then show ?case by (simp add: hex_digits_small)
next
  case (Suc k)
  show ?case
  proof (cases "n < 16")
    case True
    then show ?thesis by (simp add: hex_digits_small)
  next
    case False
    have "n div 16 < 16 ^ Suc k" using Suc.prems by (simp add: less_mult_imp_div_less)
    then show ?thesis using Suc.IH [of "n div 16"] False by (simp add: hex_digits_large)
  qed
qed

lemma length_hex_digits_gt: "16 ^ k \<le> n \<Longrightarrow> k < length (hex_digits n)"
proof (induction k arbitrary: n)
  case 0
  then show ?case by (cases "n < 16") (simp_all add: hex_digits_small hex_digits_large)
next
  case (Suc k)
  then have big: "16 \<le> n"
    using one_le_power [of "16::nat" k] by (simp add: order_trans [of 16 "16 * 16 ^ k" n])
  have "16 ^ k \<le> n div 16" using Suc.prems by (simp add: less_eq_div_iff_mult_less_eq)
  then show ?case using Suc.IH [of "n div 16"] big by (simp add: hex_digits_large)
qed

lemma hex_digit_value_hex_digit: "d < 16 \<Longrightarrow> hex_digit_value (hex_digit d) = d"
proof -
  assume "d < 16"
  then have "d \<in> set [0 ..< 16]" by simp
  then show ?thesis
    unfolding upt_conv_Cons
    by (simp add: upt_conv_Cons) (auto simp: hex_digit_value_def hex_digit_def)
qed

lemma hex_value_snoc: "hex_value (s @ [c]) = 16 * hex_value s + hex_digit_value c"
  by (simp add: hex_value_def)

lemma hex_value_hex_digits: "hex_value (hex_digits n) = n"
proof (induction n rule: hex_digits.induct)
  case (1 n)
  show ?case
  proof (cases "n < 16")
    case True
    then show ?thesis by (simp add: hex_digits_small hex_value_def hex_digit_value_hex_digit)
  next
    case False
    then show ?thesis
      using "1.IH" by (simp add: hex_digits_large hex_value_snoc hex_digit_value_hex_digit)
  qed
qed

lemma format_line_eq:
  "format_line i = ''0x'' @ take 4 (format_08X i) @ ''_'' @ take 4 (drop 4 (format_08X i)) @ '',''"
  by (simp add: format_line_def Let_def)

lemma pattern_of_parts:
  assumes "length l = 4" "length r = 4"
  shows "hex_line_pattern (''0x'' @ l @ ''_'' @ r @ '','') =
           (list_all upper_hex l \<and> list_all upper_hex r)"
proof -
  obtain l1 l2 l3 l4 where l: "l = [l1, l2, l3, l4]"
    using assms(1) by (auto simp: length_Suc_conv eval_nat_numeral)
  obtain r1 r2 r3 r4 where r: "r = [r1, r2, r3, r4]"
    using assms(2) by (auto simp: length_Suc_conv eval_nat_numeral)
  show ?thesis unfolding l r by (simp add: hex_line_pattern_def eval_nat_numeral)
qed

lemma format_08X_nonneg:
  assumes "0 \<le> i"
  shows "format_08X i =
           replicate (8 - length (hex_digits (nat i))) CHR ''0'' @ hex_digits (nat i)"
  using assms by (simp add: format_08X_def Let_def)

lemma format_08X_neg:
  assumes "i < 0"
  shows "format_08X i =
           CHR ''-'' # replicate (7 - length (hex_digits (nat (- i)))) CHR ''0''
             @ hex_digits (nat (- i))"
  using assms by (simp add: format_08X_def Let_def)

lemma length_format_08X: "8 \<le> length (format_08X i)"
  by (cases "0 \<le> i") (simp_all add: format_08X_nonneg format_08X_neg)

lemma upper_hex_zero: "upper_hex CHR ''0''"
  by (simp add: upper_hex_def)

lemma not_upper_hex_minus: "\<not> upper_hex CHR ''-''"
  by (simp add: upper_hex_def)

lemma upper_hex_format_08X: "0 \<le> i \<Longrightarrow> list_all upper_hex (format_08X i)"
  using upper_hex_hex_digits [of "nat i"]
  by (auto simp: format_08X_nonneg upper_hex_zero list_all_iff)

lemma format_line_pattern: "hex_line_pattern (format_line i) = (0 \<le> i)"
proof -
  let ?w = "format_08X i"
  have len: "length (take 4 ?w) = 4" "length (take 4 (drop 4 ?w)) = 4"
    using length_format_08X [of i] by simp_all
  have p: "hex_line_pattern (format_line i) =
      (list_all upper_hex (take 4 ?w) \<and> list_all upper_hex (take 4 (drop 4 ?w)))"
    unfolding format_line_eq by (rule pattern_of_parts [OF len])
  show ?thesis
  proof (cases "0 \<le> i")
    case True
    have "list_all upper_hex ?w" using True by (rule upper_hex_format_08X)
    then have "list_all upper_hex (take 4 ?w)" "list_all upper_hex (take 4 (drop 4 ?w))"
      by (auto simp: list_all_iff dest: in_set_takeD in_set_dropD)
    then show ?thesis using p True by simp
  next
    case False
    then have "take 4 ?w = CHR ''-'' # take 3 (tl ?w)"
      by (simp add: format_08X_neg eval_nat_numeral)
    then have "\<not> list_all upper_hex (take 4 ?w)" by (simp add: not_upper_hex_minus)
    then show ?thesis using p False by simp
  qed
qed

lemma nine_digits:
  assumes "2 ^ 32 \<le> v" "v < 2 ^ 36"
  shows "length (hex_digits (nat v)) = 9"
    and "length (hex_digits (nat v div 16)) = 8"
    and "hex_digits (nat v) = hex_digits (nat v div 16) @ [hex_digit (nat v mod 16)]"
proof -
  have lo: "(16::nat) ^ 8 \<le> nat v" and hi: "nat v < 16 ^ Suc 8"
    using assms by (simp_all add: nat_le_iff nat_less_iff)
  show "length (hex_digits (nat v)) = 9"
    using length_hex_digits_gt [OF lo] length_hex_digits_le [OF hi] by simp
  have lo': "(16::nat) ^ 7 \<le> nat v div 16" and hi': "nat v div 16 < 16 ^ Suc 7"
    using lo hi by simp_all
  show "length (hex_digits (nat v div 16)) = 8"
    using length_hex_digits_gt [OF lo'] length_hex_digits_le [OF hi'] by simp
  show "hex_digits (nat v) = hex_digits (nat v div 16) @ [hex_digit (nat v mod 16)]"
    using lo by (simp add: hex_digits_large)
qed

lemma nine_digit_line:
  assumes "2 ^ 32 \<le> v" "v < 2 ^ 36"
  shows "format_08X v = hex_digits (nat v)"
    and "take 8 (format_08X v) = hex_digits (nat (v div 16))"
    and "line_digits (format_line v) = hex_digits (nat (v div 16))"
    and "format_line v = format_line (v div 16)"
proof -
  let ?d = "hex_digits (nat v div 16)"
  have nn: "0 \<le> v" using assms(1) by (simp add: order_trans [of 0 "2 ^ 32" v])
  have div: "nat (v div 16) = nat v div 16" using nn by (simp add: nat_div_distrib)
  show f: "format_08X v = hex_digits (nat v)"
    using nn nine_digits(1) [OF assms] by (simp add: format_08X_nonneg)
  have f': "format_08X (v div 16) = ?d"
    using nn nine_digits(2) [OF assms] by (simp add: format_08X_nonneg div)
  have t: "take 8 (hex_digits (nat v)) = ?d"
    using nine_digits(2) [OF assms] by (simp add: nine_digits(3) [OF assms])
  show "take 8 (format_08X v) = hex_digits (nat (v div 16))" using t f div by simp
  have l: "take 4 (hex_digits (nat v)) = take 4 ?d"
    using nine_digits(2) [OF assms] by (simp add: nine_digits(3) [OF assms])
  have r: "take 4 (drop 4 (hex_digits (nat v))) = drop 4 ?d"
    using nine_digits(2) [OF assms] by (simp add: nine_digits(3) [OF assms])
  have r': "take 4 (drop 4 ?d) = drop 4 ?d"
    using nine_digits(2) [OF assms] by simp
  show same: "format_line v = format_line (v div 16)"
    by (simp add: format_line_eq f f' l r r')
  have "line_digits (format_line v) = take 4 ?d @ drop 4 ?d"
    using nine_digits(2) [OF assms] by (simp add: format_line_eq f l r line_digits_def)
  then show "line_digits (format_line v) = hex_digits (nat (v div 16))" by (simp add: div)
qed

section \<open>The claims about the generator\<close>

text \<open>
  Claim C1, as amended. For start \<open>\<le>\<close> final and a positive step, the value lines are
  all the output before the count line, and their number is
  \<open>floor((final - start) / step) + 1\<close> when step divides \<open>final - start\<close> and
  \<open>floor((final - start) / step) + 2\<close> when it does not: the range stops below
  \<open>final + step\<close>, so one number above \<open>final\<close> is still in it.
\<close>

theorem value_line_count:
  assumes "start a \<le> final a" "0 < step a"
  shows "butlast (stdout (generator_main a)) = value_lines a \<and>
         int (length (value_lines a)) =
           (final a - start a) div step a + (if step a dvd (final a - start a) then 1 else 2)"
  using assms length_value_lines_up [OF assms] by (simp add: generator_main_run)

theorem value_line_count_witness:
  "(0::int) \<le> 0x10 \<and> (0::int) < 5 \<and>
   butlast (stdout (generator_main \<lparr>start = 0, final = 0x10, step = 5\<rparr>))
     = value_lines \<lparr>start = 0, final = 0x10, step = 5\<rparr> \<and>
   int (length (value_lines \<lparr>start = 0, final = 0x10, step = 5\<rparr>)) = 5"
  using value_line_count [of "\<lparr>start = 0, final = 0x10, step = 5\<rparr>"] by simp

text \<open>
  The claim as it was stated fails for start 0, final 1 and step 2: two value lines
  are written, and \<open>floor((1 - 0) / 2) + 1\<close> is 1.
\<close>

theorem value_line_count_counterexample:
  "stdout (generator_main \<lparr>start = 0, final = 1, step = 2\<rparr>)
     = [''0x0000_0000,'', ''0x0000_0002,'', ''2''] \<and>
   value_lines \<lparr>start = 0, final = 1, step = 2\<rparr> = [''0x0000_0000,'', ''0x0000_0002,''] \<and>
   int (length (value_lines \<lparr>start = 0, final = 1, step = 2\<rparr>)) \<noteq> (1 - 0) div 2 + 1"
  by code_simp

text \<open>
  Claim C2, as amended. With step 0, whatever start and final are, the construction
  of the range raises \<open>ValueError\<close>: the run ends there, uncaught, and nothing has been
  written. There is no sequence and no loop.
\<close>

theorem zero_step_raises:
  "generator_main \<lparr>start = s, final = f, step = 0\<rparr> = \<lparr>stdout = [], outcome = Raised ValueError\<rparr>"
  by (simp add: generator_main_def range3_def)

text \<open>The claim as it was stated fails for start 0, final 0x10 and step 0: the run ends.\<close>

theorem zero_step_counterexample:
  "generator_main \<lparr>start = 0, final = 0x10, step = 0\<rparr>
     = \<lparr>stdout = [], outcome = Raised ValueError\<rparr> \<and>
   array_range_values \<lparr>start = 0, final = 0x10, step = 0\<rparr> = []"
  by code_simp

text \<open>
  Claim C3, as amended. The value lines (all the output before the last line) are the
  lines of the sequence's numbers, one each and in order; the line of a number matches
  the pattern exactly when the number is not negative (the line of a negative number
  has a minus sign after \<open>0x\<close>). So all value lines match exactly when no number of the
  sequence is negative.
\<close>

theorem value_line_matches_iff_nonnegative:
  "butlast (stdout (generator_main a)) = value_lines a \<and>
   value_lines a = map format_line (array_range_values a) \<and>
   (\<forall>v. hex_line_pattern (format_line v) = (0 \<le> v)) \<and>
   list_all hex_line_pattern (value_lines a) = list_all (\<lambda>v. 0 \<le> v) (array_range_values a)"
  by (simp add: value_lines_output value_lines_map format_line_pattern list_all_iff)

text \<open>
  The claim as it was stated fails for start 0x10, final 0 and step -32: the sequence
  is 16, -16, and the line of -16 does not match.
\<close>

theorem value_line_pattern_counterexample:
  "generator_main \<lparr>start = 0x10, final = 0, step = - 32\<rparr>
     = \<lparr>stdout = [''0x0000_0010,'', ''0x-000_0010,'', ''2''], outcome = Exit 0\<rparr> \<and>
   value_lines \<lparr>start = 0x10, final = 0, step = - 32\<rparr> = [''0x0000_0010,'', ''0x-000_0010,''] \<and>
   \<not> hex_line_pattern ''0x-000_0010,''"
  by code_simp

text \<open>
  Claim C5. For start \<open>\<le>\<close> final and a positive step the run ends normally, and its
  output is the value lines followed by one line: their number, in decimal. Read as a
  decimal number, the last line is the number of value lines.
\<close>

theorem count_line_is_number_of_value_lines:
  assumes "start a \<le> final a" "0 < step a"
  shows "generator_main a =
       \<lparr>stdout = value_lines a @ [str_int (int (length (value_lines a)))], outcome = Exit 0\<rparr> \<and>
     dec_value (last (stdout (generator_main a))) = length (value_lines a)"
  using assms by (simp add: generator_main_run dec_value_str_int)

theorem count_line_is_number_of_value_lines_witness:
  "(0::int) \<le> 0x10 \<and> (0::int) < 5 \<and>
   generator_main \<lparr>start = 0, final = 0x10, step = 5\<rparr> =
     \<lparr>stdout = [''0x0000_0000,'', ''0x0000_0005,'', ''0x0000_000A,'', ''0x0000_000F,'',
                 ''0x0000_0014,'', ''5''],
      outcome = Exit 0\<rparr>"
proof -
  have "value_lines \<lparr>start = 0, final = 0x10, step = 5\<rparr> =
      [''0x0000_0000,'', ''0x0000_0005,'', ''0x0000_000A,'', ''0x0000_000F,'', ''0x0000_0014,'']"
    by code_simp
  moreover have "str_int 5 = ''5''" by code_simp
  ultimately show ?thesis
    using count_line_is_number_of_value_lines [of "\<lparr>start = 0, final = 0x10, step = 5\<rparr>"]
    by simp
qed

text \<open>
  Claim C6, as amended. For a nonzero step and \<open>final - start\<close> a multiple \<open>k * step\<close>
  of it with \<open>k \<ge> 0\<close> (the step leads from start to final: counting up for a positive
  step and start \<open>\<le>\<close> final, counting down for a negative step and start \<open>\<ge>\<close> final),
  the sequence is not empty and its last number is final; the last value line written
  is the line of final.
\<close>

theorem final_is_last_value:
  assumes "step a \<noteq> 0" "final a - start a = int k * step a"
  shows "array_range_values a \<noteq> [] \<and> last (array_range_values a) = final a \<and>
         last (butlast (stdout (generator_main a))) = format_line (final a)"
proof -
  have h: "final a + step a - step a - start a = int k * step a" using assms(2) by simp
  have "length (array_range_values a) = Suc k"
    using range_from_last(1) [OF assms(1) h] assms(1) by (simp add: array_range_values_eq)
  then have ne: "array_range_values a \<noteq> []" by auto
  have l: "last (array_range_values a) = final a"
    using range_from_last(2) [OF assms(1) h] assms(1) by (simp add: array_range_values_eq)
  have "last (value_lines a) = format_line (final a)"
    using ne l by (simp add: value_lines_map last_map)
  then show ?thesis using ne l by (simp add: value_lines_output)
qed

text \<open>Counting down from 0x30 to 0x10 in steps of -16: \<open>0x10 - 0x30 = 2 * (-16)\<close>.\<close>

theorem final_is_last_value_witness:
  "(- 16::int) \<noteq> 0 \<and> (0x10::int) - 0x30 = int 2 * (- 16) \<and>
   array_range_values \<lparr>start = 0x30, final = 0x10, step = - 16\<rparr> \<noteq> [] \<and>
   last (array_range_values \<lparr>start = 0x30, final = 0x10, step = - 16\<rparr>) = 0x10 \<and>
   last (butlast (stdout (generator_main \<lparr>start = 0x30, final = 0x10, step = - 16\<rparr>)))
     = ''0x0000_0010,''"
proof -
  have "format_line 0x10 = ''0x0000_0010,''" by code_simp
  then show ?thesis
    using final_is_last_value [of "\<lparr>start = 0x30, final = 0x10, step = - 16\<rparr>" 2] by simp
qed

text \<open>
  The claim as it was stated fails for start 0x20, final 0x10 and step 16:
  \<open>final - start\<close> is the multiple \<open>(-1) * 16\<close> of the step, and the sequence is empty.
\<close>

theorem final_is_last_value_counterexample:
  "(16::int) dvd 0x10 - 0x20 \<and>
   array_range_values \<lparr>start = 0x20, final = 0x10, step = 16\<rparr> = [] \<and>
   stdout (generator_main \<lparr>start = 0x20, final = 0x10, step = 16\<rparr>) = [''0'']"
  by code_simp

text \<open>
  Claim C7. With start 0x00000000, final 0x00000010 and step 16 the generator writes
  exactly the three lines 0x0000_0000, and 0x0000_0010, and 2, in this order, and
  ends normally.
\<close>

theorem generator_example_0_10_16:
  "generator_main \<lparr>start = 0x00000000, final = 0x00000010, step = 16\<rparr>
     = \<lparr>stdout = [''0x0000_0000,'', ''0x0000_0010,'', ''2''], outcome = Exit 0\<rparr>"
  by code_simp

text \<open>
  Claim C9. For a positive step and start \<open>\<ge>\<close> final + step there is no value line:
  the whole output is the one line 0, and the run ends normally.
\<close>

theorem empty_range_prints_zero:
  assumes "0 < step a" "final a + step a \<le> start a"
  shows "value_lines a = [] \<and> generator_main a = \<lparr>stdout = [''0''], outcome = Exit 0\<rparr>"
proof -
  have "length (value_lines a) = 0" using assms by (simp add: length_value_lines)
  then have "value_lines a = []" by simp
  moreover have "str_int 0 = ''0''" by (simp add: str_int_def dec_digits.simps dec_digit_def)
  ultimately show ?thesis using assms by (simp add: generator_main_run)
qed

theorem empty_range_prints_zero_witness:
  "(0::int) < 2 \<and> (1::int) + 2 \<le> 5 \<and>
   value_lines \<lparr>start = 5, final = 1, step = 2\<rparr> = [] \<and>
   generator_main \<lparr>start = 5, final = 1, step = 2\<rparr> = \<lparr>stdout = [''0''], outcome = Exit 0\<rparr>"
  using empty_range_prints_zero [of "\<lparr>start = 5, final = 1, step = 2\<rparr>"] by simp

text \<open>
  Claim C10. A number \<open>v\<close> of the sequence with \<open>2^32 \<le> v < 2^36\<close> has nine hexadecimal
  digits, and nothing is padded. Its line is made of the first four digits and of the
  next four: the first eight of the nine, the last digit being dropped. The line is the
  one that \<open>v div 16\<close> would get, the eight digits it shows denote \<open>v div 16\<close>, and that
  is not \<open>v\<close>.
\<close>

theorem nine_digit_value_loses_last_digit:
  assumes "v \<in> set (array_range_values a)" "2 ^ 32 \<le> v" "v < 2 ^ 36"
  shows "format_line v \<in> set (value_lines a) \<and>
         length (hex_digits (nat v)) = 9 \<and>
         format_line v =
           ''0x'' @ take 4 (hex_digits (nat v)) @ ''_'' @ take 4 (drop 4 (hex_digits (nat v))) @ '','' \<and>
         take 8 (hex_digits (nat v)) = butlast (hex_digits (nat v)) \<and>
         format_line v = format_line (v div 16) \<and>
         int (hex_value (line_digits (format_line v))) = v div 16 \<and>
         v div 16 \<noteq> v \<and>
         butlast (stdout (generator_main a)) = value_lines a"
proof -
  have nn: "0 \<le> v" using assms(2) by (simp add: order_trans [of 0 "2 ^ 32" v])
  have "format_line v \<in> set (value_lines a)"
    using assms(1) by (simp add: value_lines_map)
  moreover have "format_line v =
      ''0x'' @ take 4 (hex_digits (nat v)) @ ''_'' @ take 4 (drop 4 (hex_digits (nat v))) @ '',''"
    using nine_digit_line(1) [OF assms(2,3)] by (simp add: format_line_eq)
  moreover have "take 8 (hex_digits (nat v)) = butlast (hex_digits (nat v))"
    using nine_digits(1) [OF assms(2,3)] by (simp add: butlast_conv_take)
  moreover have "int (hex_value (line_digits (format_line v))) = v div 16"
    using nn by (simp add: nine_digit_line(3) [OF assms(2,3)] hex_value_hex_digits
        pos_imp_zdiv_nonneg_iff)
  moreover have "v div 16 \<noteq> v" using assms(2) by simp
  ultimately show ?thesis
    using nine_digits(1) [OF assms(2,3)] nine_digit_line(4) [OF assms(2,3)]
    by (simp add: value_lines_output)
qed

text \<open>
  The number 0x12345678F as the only number of the sequence: its line shows 12345678.
\<close>

theorem nine_digit_value_loses_last_digit_witness:
  "(0x12345678F::int) \<in> set (array_range_values \<lparr>start = 0x12345678F, final = 0x12345678F, step = 1\<rparr>) \<and>
   (2::int) ^ 32 \<le> 0x12345678F \<and> (0x12345678F::int) < 2 ^ 36 \<and>
   format_line 0x12345678F \<in> set (value_lines \<lparr>start = 0x12345678F, final = 0x12345678F, step = 1\<rparr>) \<and>
   format_line 0x12345678F = ''0x1234_5678,'' \<and>
   format_line 0x12345678F = format_line 0x12345678 \<and>
   int (hex_value (line_digits (format_line 0x12345678F))) = 0x12345678"
proof -
  have h1: "(0x12345678F::int) \<in> set (array_range_values \<lparr>start = 0x12345678F, final = 0x12345678F, step = 1\<rparr>)"
    by (simp add: array_range_values_def range3_def range_from.simps)
  have h2: "(2::int) ^ 32 \<le> 0x12345678F" by simp
  have h3: "(0x12345678F::int) < 2 ^ 36" by simp
  have fl: "format_line 0x12345678F = ''0x1234_5678,''"
    by (simp add: format_line_def format_08X_def hex_digits.simps hex_digit_def)
  note inst = nine_digit_value_loses_last_digit [OF h1 h2 h3]
  have c1: "format_line 0x12345678F \<in> set (value_lines \<lparr>start = 0x12345678F, final = 0x12345678F, step = 1\<rparr>)"
    using inst by (rule conjunct1)
  have d: "(0x12345678F::int) div 16 = 0x12345678" by simp
  have c5: "format_line 0x12345678F = format_line 0x12345678"
    using inst [THEN conjunct2, THEN conjunct2, THEN conjunct2, THEN conjunct2, THEN conjunct1]
    by (simp only: d)
  have c6: "int (hex_value (line_digits (format_line 0x12345678F))) = 0x12345678"
    using inst [THEN conjunct2, THEN conjunct2, THEN conjunct2, THEN conjunct2, THEN conjunct2,
        THEN conjunct1]
    by (simp only: d)
  show ?thesis using h1 h2 h3 c1 fl c5 c6 by (intro conjI)
qed

section \<open>Properties of the lister\<close>

lemma lister_loop_map:
  "lister_loop xs out = out @ map (\<lambda>(index, p). str_int (int index + 1) @ '' '' @ stem p) xs"
  by (induction xs out rule: lister_loop.induct) (simp_all add: print_def)

lemma stem_entry: "stem (joinpath p [n]) = name_stem n"
  by (simp add: stem_def joinpath_def path_name_def)

lemma rfind_absent:
  assumes "c \<notin> set s"
  shows "rfind s c = - 1"
proof -
  have "filter (\<lambda>i. s ! i = c) [0 ..< length s] = []"
    using assms by (auto simp: filter_empty_conv)
  then show ?thesis by (simp add: rfind_def)
qed

lemma name_stem_no_dot: "CHR ''.'' \<notin> set n \<Longrightarrow> name_stem n = n"
  by (simp add: name_stem_def rfind_absent)

lemma entry_lines:
  "map (\<lambda>(index, p). str_int (int index + 1) @ '' '' @ stem p)
       (enumerate k (map (\<lambda>n. joinpath d [n]) names)) =
   map (\<lambda>(index, n). str_int (int index + 1) @ '' '' @ name_stem n) (enumerate k names)"
  by (induction names arbitrary: k) (simp_all add: stem_entry)

section \<open>The claims about the lister\<close>

text \<open>
  Claim C4, as amended. When the examples path is a directory, the run ends normally
  and writes one line for every entry, in the listing's order: the index of the entry
  counted from 1, a space, and the stem of the entry's name. The stem is computed from
  the name alone, for a directory as for a file: it is the name without its last
  suffix, and the unmodified name when the name has no dot.
\<close>

theorem lister_prints_index_and_stem:
  assumes "fs (joinpath cwd [''examples'']) = Some (Directory names)"
  shows "lister_main cwd fs =
           \<lparr>stdout = map (\<lambda>(index, n). str_int (int index + 1) @ '' '' @ name_stem n)
                        (enumerate 0 names),
            outcome = Exit 0\<rparr> \<and>
         (\<forall>n \<in> set names. CHR ''.'' \<notin> set n \<longrightarrow> name_stem n = n)"
proof -
  let ?d = "joinpath cwd [''examples'']"
  have "lister_main cwd fs =
      \<lparr>stdout = lister_loop (enumerate 0 (map (\<lambda>n. joinpath ?d [n]) names)) [],
       outcome = Exit 0\<rparr>"
    using assms by (simp add: lister_main_def path_exists_def is_dir_def iterdir_def)
  then have "lister_main cwd fs =
           \<lparr>stdout = map (\<lambda>(index, n). str_int (int index + 1) @ '' '' @ name_stem n)
                        (enumerate 0 names),
            outcome = Exit 0\<rparr>"
    by (simp only: lister_loop_map entry_lines append_Nil)
  then show ?thesis by (simp add: name_stem_no_dot)
qed

text \<open>A directory \<open>/home/examples\<close> with the file \<open>blinky.c\<close> and the directory \<open>uart\<close>.\<close>

theorem lister_prints_index_and_stem_witness:
  "lister_main [''home'']
     [[''home'', ''examples''] \<mapsto> Directory [''blinky.c'', ''uart''],
      [''home'', ''examples'', ''blinky.c''] \<mapsto> File,
      [''home'', ''examples'', ''uart''] \<mapsto> Directory []]
   = \<lparr>stdout = [''1 blinky'', ''2 uart''], outcome = Exit 0\<rparr>"
proof -
  have "name_stem ''blinky.c'' = ''blinky''" "name_stem ''uart'' = ''uart''"
    by (simp_all add: name_stem_def rfind_def upt_conv_Cons)
  moreover have "str_int 1 = ''1''" "str_int 2 = ''2''"
    by (simp_all add: str_int_def dec_digits.simps dec_digit_def)
  ultimately show ?thesis
    using lister_prints_index_and_stem [of
        "[[''home'', ''examples''] \<mapsto> Directory [''blinky.c'', ''uart''],
          [''home'', ''examples'', ''blinky.c''] \<mapsto> File,
          [''home'', ''examples'', ''uart''] \<mapsto> Directory []]"
        "[''home'']" "[''blinky.c'', ''uart'']"]
    by (simp add: joinpath_def enumerate_eq_zip upt_conv_Cons)
qed

text \<open>
  The claim as it was stated fails for a directory entry whose name has a suffix: the
  entry \<open>demo.v2\<close> of \<open>/work/examples\<close> is a directory, and its line is \<open>1 demo\<close>.
\<close>

theorem lister_directory_name_counterexample:
  "dotted_directory_fs [''work'', ''examples'', ''demo.v2''] = Some (Directory []) \<and>
   lister_main [''work''] dotted_directory_fs = \<lparr>stdout = [''1 demo''], outcome = Exit 0\<rparr> \<and>
   ''1 demo'' \<noteq> ''1 demo.v2''"
  by (simp add: lister_main_def dotted_directory_fs_def joinpath_def path_exists_def is_dir_def
     iterdir_def print_def str_int_def dec_digits.simps dec_digit_def stem_def path_name_def
     name_stem_def rfind_def upt_conv_Cons)

text \<open>
  Claim C8. When nothing is at the examples path, or something that is not a
  directory, the output is exactly two lines, the message of the case and the path
  after a dash, and the run ends with exit status 1.
\<close>

theorem lister_reports_bad_path:
  assumes "fs (joinpath cwd [''examples'']) = None \<or> fs (joinpath cwd [''examples'']) = Some File"
  shows "lister_main cwd fs =
           \<lparr>stdout = [if fs (joinpath cwd [''examples'']) = None
                       then ''Path to examples does not exist.''
                       else ''Path to examples is not a directory.'',
                      '' - '' @ path_str (joinpath cwd [''examples''])],
            outcome = Exit 1\<rparr>"
  using assms
  by (auto simp: lister_main_def path_exists_def is_dir_def print_def Let_def)

theorem lister_reports_bad_path_witness:
  "lister_main [''home''] Map.empty =
     \<lparr>stdout = [''Path to examples does not exist.'', '' - /home/examples''],
      outcome = Exit 1\<rparr> \<and>
   lister_main [''home''] [[''home'', ''examples''] \<mapsto> File] =
     \<lparr>stdout = [''Path to examples is not a directory.'', '' - /home/examples''],
      outcome = Exit 1\<rparr>"
  using lister_reports_bad_path [of Map.empty "[''home'']"]
    lister_reports_bad_path [of "[[''home'', ''examples''] \<mapsto> File]" "[''home'']"]
  by (simp add: joinpath_def path_str_def)

end
